theory Spec2Isabelle
  imports Main
begin

section \<open>contextpy: layers, advice chains and layered dispatch\<close>

text \<open>
  A shallow embedding of \<^verbatim>\<open>contextpy.py\<close>. Python objects that are compared by
  identity (\<^verbatim>\<open>Layer\<close> instances, function objects, method descriptors, the per-call
  \<^verbatim>\<open>context\<close> list) are natural numbers; mutable objects live in explicit state
  records; every \<^verbatim>\<open>raise\<close> is a value. One thread is modelled, so the thread-local
  \<^verbatim>\<open>_tls\<close> is one slot.
\<close>

subsection \<open>Values and exceptions\<close>

type_synonym layer = nat
  \<comment> \<open>the identity of a \<^verbatim>\<open>Layer\<close> object\<close>

type_synonym layers = "layer option list"
  \<comment> \<open>a tuple of layers; the entry \<open>None\<close> is Python's \<^verbatim>\<open>None\<close>, the base layer\<close>

type_synonym fid = nat
  \<comment> \<open>the identity of a function object\<close>

datatype pyval =
    PyNone | PyInt int | PyStr string | PyTuple "pyval list"
  | PyObj nat nat  \<comment> \<open>\<open>PyObj c i\<close>: the instance \<open>i\<close> of the class \<open>c\<close>\<close>
  | PyClass nat  \<comment> \<open>a class defined by the program\<close>
  | PyBuiltin string  \<comment> \<open>a built-in class\<close>

fun py_type :: "pyval \<Rightarrow> pyval" where
  "py_type PyNone = PyBuiltin ''NoneType''"
| "py_type (PyInt i) = PyBuiltin ''int''"
| "py_type (PyStr s) = PyBuiltin ''str''"
| "py_type (PyTuple vs) = PyBuiltin ''tuple''"
| "py_type (PyObj c i) = PyClass c"
| "py_type (PyClass c) = PyBuiltin ''type''"
| "py_type (PyBuiltin s) = PyBuiltin ''type''"

type_synonym pyargs = "pyval list"
type_synonym pykwargs = "(string \<times> pyval) list"

datatype exn = PyException | TypeError | RuntimeError | AttributeError | ValueError | UserError nat
  \<comment> \<open>\<open>PyException\<close> is the plain \<^verbatim>\<open>Exception\<close> raised by \<^verbatim>\<open>_Stop\<close>;
      \<open>UserError\<close> stands for whatever an advice implementation raises itself\<close>

datatype outcome = Return pyval | Raise exn

subsection \<open>Layer managers\<close>

datatype manager_class = LayerManager | LayerActivationManager | LayerDeactivationManager

record manager =
  m_class :: manager_class
  m_layers :: layers
  m_oldLayers :: layers

definition getActiveLayers :: "manager \<Rightarrow> layers" where
  "getActiveLayers m =
     (case m_class m of
        LayerManager \<Rightarrow> m_oldLayers m
      | LayerActivationManager \<Rightarrow>
          filter (\<lambda>layer. layer \<notin> set (m_layers m)) (m_oldLayers m) @ m_layers m
      | LayerDeactivationManager \<Rightarrow>
          filter (\<lambda>layer. layer \<notin> set (m_layers m)) (m_oldLayers m))"

definition activeLayer :: "layer option \<Rightarrow> manager" where
  "activeLayer layer = \<lparr>m_class = LayerActivationManager, m_layers = [layer], m_oldLayers = []\<rparr>"

definition inactiveLayer :: "layer option \<Rightarrow> manager" where
  "inactiveLayer layer = \<lparr>m_class = LayerDeactivationManager, m_layers = [layer], m_oldLayers = []\<rparr>"

definition activeLayers :: "layers \<Rightarrow> manager" where
  "activeLayers ls = \<lparr>m_class = LayerActivationManager, m_layers = ls, m_oldLayers = []\<rparr>"

definition inactiveLayers :: "layers \<Rightarrow> manager" where
  "inactiveLayers ls = \<lparr>m_class = LayerDeactivationManager, m_layers = ls, m_oldLayers = []\<rparr>"

subsection \<open>Client code\<close>

text \<open>
  The implementations registered as advice are client code. Such a function is given by
  what it does with its arguments. It finishes, returning or raising; or it calls
  \<^verbatim>\<open>proceed(*args, **kwargs)\<close>; or it calls a layered method, the attribute
  \<^verbatim>\<open>m\<close> looked up on \<^verbatim>\<open>inst\<close> and \<^verbatim>\<open>cls\<close>; or it runs a block inside
  \<^verbatim>\<open>with manager:\<close>. After each of the three it continues with what the call or the
  block returned or raised (a function that does not catch the exception continues with
  \<open>Done (Raise e)\<close>). Implementations that themselves register advice or change the
  base layers are not described.
\<close>

datatype prog =
    Done outcome
  | CallProceed pyargs pykwargs "outcome \<Rightarrow> prog"
  | CallMethod nat pyval pyval pyargs pykwargs "outcome \<Rightarrow> prog"
  | WithManager manager prog "outcome \<Rightarrow> prog"

text \<open>
  A function object is a plain function, or a \<^verbatim>\<open>classmethod\<close> or \<^verbatim>\<open>staticmethod\<close>
  object wrapping one; \<open>f_body\<close> is the wrapped function.
\<close>

datatype ftype = Function | ClassMethod | StaticMethod

record fobj =
  f_type :: ftype
  f_body :: "pyargs \<Rightarrow> pykwargs \<Rightarrow> prog"

type_synonym env = "fid \<Rightarrow> fobj"

subsection \<open>The advice chain\<close>

datatype kind = Before | Around | After
  \<comment> \<open>the classes \<^verbatim>\<open>_Before\<close>, \<^verbatim>\<open>_Around\<close>, \<^verbatim>\<open>_After\<close>\<close>

datatype advice = Stop | Link kind fid advice
  \<comment> \<open>\<open>Stop\<close> is \<^verbatim>\<open>_Stop(None, None)\<close>;
      \<open>Link when func nextFct\<close> is \<^verbatim>\<open>when(func, nextFct)\<close>\<close>

fun createChain :: "(fid \<times> kind) list \<Rightarrow> advice" where
  "createChain [] = Stop"
| "createChain ((method, when) # rest) = Link when method (createChain rest)"

subsection \<open>The layered method descriptor\<close>

text \<open>
  An entry of \<^verbatim>\<open>_methods\<close> is the tuple \<^verbatim>\<open>(layer_, f, when, guard, methodName)\<close>;
  the entries made by \<^verbatim>\<open>createlayeredmethod\<close> and \<^verbatim>\<open>base\<close> have no fifth
  component. Guards are predicates on the tuple of layers they are called with.
\<close>

record lmwgm =
  lm_layer :: "layer option"
  lm_func :: fid
  lm_when :: kind
  lm_guard :: "layers \<Rightarrow> bool"
  lm_name :: "string option"

definition true_guard :: "layers \<Rightarrow> bool" where
  "true_guard activelayers = True"

text \<open>
  \<^verbatim>\<open>_cache\<close> is a dict keyed by the tuple of layers: an association list in insertion
  order with one entry for each key.
\<close>

type_synonym cache = "(layers \<times> advice) list"

definition cache_get :: "cache \<Rightarrow> layers \<Rightarrow> advice option" where
  "cache_get c key = map_of c key"

fun cache_set :: "layers \<Rightarrow> advice \<Rightarrow> cache \<Rightarrow> cache" where
  "cache_set key v [] = [(key, v)]"
| "cache_set key v ((k, x) # c) = (if k = key then (k, v) # c else (k, x) # cache_set key v c)"

definition cache_pop :: "layers \<Rightarrow> cache \<Rightarrow> cache" where
  "cache_pop key c = filter (\<lambda>(k, x). k \<noteq> key) c"

record descriptor =
  methods :: "lmwgm list"
  cache :: cache

text \<open>
  \<^verbatim>\<open>for key in self._cache.keys(): self._cache.pop(key, None)\<close> iterates over a view of
  the dict it changes. Each step of a dict iterator first compares the size of the dict
  with the size it had when the iteration began and raises \<^verbatim>\<open>RuntimeError\<close> when
  they differ; only then does it yield the next key or stop. \<open>used\<close> is that first size,
  \<open>keys\<close> the keys not yet yielded.
\<close>

fun clearCache_loop :: "nat \<Rightarrow> layers list \<Rightarrow> cache \<Rightarrow> exn option \<times> cache" where
  "clearCache_loop used [] c = (if length c \<noteq> used then (Some RuntimeError, c) else (None, c))"
| "clearCache_loop used (key # rest) c =
     (if length c \<noteq> used then (Some RuntimeError, c)
      else clearCache_loop used rest (cache_pop key c))"

definition clearCache :: "descriptor \<Rightarrow> exn option \<times> descriptor" where
  "clearCache d =
     (case clearCache_loop (length (cache d)) (map fst (cache d)) (cache d) of
        (e, c) \<Rightarrow> (e, d\<lparr>cache := c\<rparr>))"

text \<open>
  \<^verbatim>\<open>cacheMethods\<close>: the first loop of the source computes \<^verbatim>\<open>layers\<close>, which is
  never read; the second collects, layer by layer in the order of \<^verbatim>\<open>activelayers\<close>,
  the entries of that layer whose guard holds; the list is reversed and made a chain.
\<close>

definition collect_methods :: "lmwgm list \<Rightarrow> layers \<Rightarrow> (fid \<times> kind) list" where
  "collect_methods ms activelayers =
     concat (map (\<lambda>currentlayer.
        map (\<lambda>m. (lm_func m, lm_when m))
          (filter (\<lambda>m. lm_layer m = currentlayer \<and> lm_guard m activelayers) ms))
        activelayers)"

definition cacheMethods :: "descriptor \<Rightarrow> layers \<Rightarrow> advice \<times> descriptor" where
  "cacheMethods d activelayers =
     (let result = createChain (rev (collect_methods (methods d) activelayers))
      in (result, d\<lparr>cache := cache_set activelayers result (cache d)\<rparr>))"

definition setMethods :: "descriptor \<Rightarrow> lmwgm list \<Rightarrow> exn option \<times> descriptor" where
  "setMethods d ms = clearCache (d\<lparr>methods := ms\<rparr>)"

definition getMethods :: "descriptor \<Rightarrow> lmwgm list" where
  "getMethods d = methods d"

text \<open>
  \<open>fname\<close> gives the \<^verbatim>\<open>__name__\<close> of a function object. The two assertions of the
  source hold by typing: a layer is a \<^verbatim>\<open>Layer\<close> or \<^verbatim>\<open>None\<close>, and \<open>when\<close> is one
  of the advice classes.
\<close>

definition registerMethod ::
  "(fid \<Rightarrow> string) \<Rightarrow> descriptor \<Rightarrow> fid \<Rightarrow> kind \<Rightarrow> layer option \<Rightarrow> (layers \<Rightarrow> bool) \<Rightarrow> string
     \<Rightarrow> exn option \<times> descriptor" where
  "registerMethod fname d f when layer guard methodName =
     (let methodName1 = (if methodName = [] then fname f else methodName)
      in setMethods d (getMethods d @
           [\<lparr>lm_layer = layer, lm_func = f, lm_when = when, lm_guard = guard,
             lm_name = Some methodName1\<rparr>]))"

text \<open>
  \<^verbatim>\<open>unregisterMethod\<close> of the descriptor reads \<^verbatim>\<open>self._descriptor.methods\<close>; a
  descriptor has no attribute \<^verbatim>\<open>_descriptor\<close>, so the right-hand side raises
  \<^verbatim>\<open>AttributeError\<close> before anything is assigned.
\<close>

definition unregisterMethod :: "descriptor \<Rightarrow> fid \<Rightarrow> layer option \<Rightarrow> exn option \<times> descriptor" where
  "unregisterMethod d f layer = (Some AttributeError, d)"

definition createlayeredmethod :: "fid option \<Rightarrow> lmwgm list \<Rightarrow> descriptor" where
  "createlayeredmethod baseMethod partial =
     (case baseMethod of
        Some b \<Rightarrow>
          \<lparr>methods = \<lparr>lm_layer = None, lm_func = b, lm_when = Around, lm_guard = true_guard,
                       lm_name = None\<rparr> # partial,
           cache = []\<rparr>
      | None \<Rightarrow> \<lparr>methods = partial, cache = []\<rparr>)"

text \<open>
  \<^verbatim>\<open>self._cache.get(activelayers) or self.cacheMethods(activelayers)\<close>: an advice
  object is true, so the chain is built exactly when the key has no entry.
\<close>

definition lookup_advice :: "descriptor \<Rightarrow> layers \<Rightarrow> advice \<times> descriptor" where
  "lookup_advice d activelayers =
     (case cache_get (cache d) activelayers of
        Some advice \<Rightarrow> (advice, d)
      | None \<Rightarrow> cacheMethods d activelayers)"

subsection \<open>Process state\<close>

record dispatch_context =
  c_inst :: pyval
  c_cls :: pyval
  c_next :: "advice option"

text \<open>
  \<open>baseLayers\<close> is the module global \<^verbatim>\<open>_baseLayers\<close>; \<open>tls_context\<close> and
  \<open>tls_activelayers\<close> are the two attributes of \<^verbatim>\<open>_tls\<close>. \<open>tls_context\<close> holds a
  reference: the address of a context list in the store \<open>contexts\<close>, where
  \<open>n_contexts\<close> is the next free address. \<open>descriptors\<close> is the store of the
  \<^verbatim>\<open>_LayeredMethodDescriptor\<close> objects of the program: a layered method is known by
  the address of its descriptor, and every call of it reads and writes that one object.
\<close>

record world =
  baseLayers :: layers
  tls_context :: "nat option"
  tls_activelayers :: layers
  contexts :: "nat \<Rightarrow> dispatch_context"
  n_contexts :: nat
  descriptors :: "nat \<Rightarrow> descriptor"

definition initial_world :: world where
  "initial_world =
     \<lparr>baseLayers = [None], tls_context = None, tls_activelayers = [],
      contexts = (\<lambda>_. \<lparr>c_inst = PyNone, c_cls = PyNone, c_next = None\<rparr>), n_contexts = 0,
      descriptors = (\<lambda>_. \<lparr>methods = [], cache = []\<rparr>)\<rparr>"

definition manager_enter :: "manager \<Rightarrow> world \<Rightarrow> manager \<times> world" where
  "manager_enter m w =
     (let m1 = m\<lparr>m_oldLayers := tls_activelayers w\<rparr>
      in (m1, w\<lparr>tls_activelayers := getActiveLayers m1\<rparr>))"

definition manager_exit :: "manager \<Rightarrow> world \<Rightarrow> world" where
  "manager_exit m w = w\<lparr>tls_activelayers := m_oldLayers m\<rparr>"

definition globalActivateLayer :: "layer option \<Rightarrow> world \<Rightarrow> exn + world" where
  "globalActivateLayer layer w =
     (if layer \<in> set (baseLayers w) then Inl ValueError
      else Inr (w\<lparr>baseLayers := baseLayers w @ [layer]\<rparr>))"

definition globalDeactivateLayer :: "layer option \<Rightarrow> world \<Rightarrow> exn + world" where
  "globalDeactivateLayer layer w =
     (if layer \<notin> set (baseLayers w) then Inl ValueError
      else Inr (w\<lparr>baseLayers := filter (\<lambda>l. l \<noteq> layer) (baseLayers w)\<rparr>))"

definition new_context :: "pyval \<Rightarrow> pyval \<Rightarrow> world \<Rightarrow> nat \<times> world" where
  "new_context inst cls w =
     (n_contexts w,
      w\<lparr>contexts := (contexts w)(n_contexts w := \<lparr>c_inst = inst, c_cls = cls, c_next = None\<rparr>),
        n_contexts := Suc (n_contexts w)\<rparr>)"

subsection \<open>Dispatch and the links of a chain\<close>

type_synonym result = "(outcome \<times> world) option"
  \<comment> \<open>\<open>None\<close>: the call depth allowed by the fuel was exceeded\<close>

type_synonym caller = "advice \<Rightarrow> nat \<Rightarrow> pyargs \<Rightarrow> pykwargs \<Rightarrow> world \<Rightarrow> result"
  \<comment> \<open>how an advice object is called: \<^verbatim>\<open>advice(context, args, kwargs)\<close>\<close>

definition proceed :: "caller \<Rightarrow> pyargs \<Rightarrow> pykwargs \<Rightarrow> world \<Rightarrow> result" where
  "proceed call args kwargs w =
     (case tls_context w of
        None \<Rightarrow> Some (Raise TypeError, w)
      | Some context \<Rightarrow>
          (case c_next (contexts w context) of
             None \<Rightarrow> Some (Raise TypeError, w)
           | Some nextFct \<Rightarrow> call nextFct context args kwargs w))"

text \<open>
  \<^verbatim>\<open>_LayeredMethodInvocationProxy.__call__\<close> for the descriptor at the address \<open>m\<close>:
  the combination is the base layers followed by the active layers of the thread; the
  chain is the cached one or is built and cached in the descriptor; a fresh context list
  \<^verbatim>\<open>[inst, cls, None]\<close> is allocated and the chain called with it.
\<close>

definition dispatch :: "caller \<Rightarrow> nat \<Rightarrow> pyval \<Rightarrow> pyval \<Rightarrow> pyargs \<Rightarrow> pykwargs \<Rightarrow> world \<Rightarrow> result" where
  "dispatch call m inst cls args kwargs w =
     (let activelayers = baseLayers w @ tls_activelayers w;
          (advice, d1) = lookup_advice (descriptors w m) activelayers;
          w0 = w\<lparr>descriptors := (descriptors w)(m := d1)\<rparr>;
          (context, w1) = new_context inst cls w0
      in call advice context args kwargs w1)"

text \<open>
  Running client code. \<^verbatim>\<open>with manager: block\<close> calls \<^verbatim>\<open>__enter__\<close>, runs the
  block and calls \<^verbatim>\<open>__exit__\<close> whether the block returned or raised; \<^verbatim>\<open>__exit__\<close>
  returns \<^verbatim>\<open>None\<close>, so an exception of the block goes on.
\<close>

primrec run :: "caller \<Rightarrow> prog \<Rightarrow> world \<Rightarrow> result" where
  "run call (Done r) w = Some (r, w)"
| "run call (CallProceed args kwargs k) w =
     (case proceed call args kwargs w of
        None \<Rightarrow> None
      | Some (r, w1) \<Rightarrow> run call (k r) w1)"
| "run call (CallMethod m inst cls args kwargs k) w =
     (case dispatch call m inst cls args kwargs w of
        None \<Rightarrow> None
      | Some (r, w1) \<Rightarrow> run call (k r) w1)"
| "run call (WithManager manager body k) w =
     (case manager_enter manager w of
        (manager1, w1) \<Rightarrow>
          (case run call body w1 of
             None \<Rightarrow> None
           | Some (r, w2) \<Rightarrow> run call (k r) (manager_exit manager1 w2)))"

text \<open>
  \<^verbatim>\<open>_Advice._invoke\<close>. With both slots of the context \<^verbatim>\<open>None\<close> the function object
  is called as it is: a \<^verbatim>\<open>classmethod\<close> object is not callable, a \<^verbatim>\<open>staticmethod\<close>
  object calls the function it wraps (as it does from Python 3.10 on). Otherwise \<^verbatim>\<open>func.__get__(inst, cls)\<close> is called:
  for a plain function that is the function itself when \<^verbatim>\<open>inst\<close> is \<^verbatim>\<open>None\<close> and
  the method bound to \<^verbatim>\<open>inst\<close> otherwise; for a \<^verbatim>\<open>classmethod\<close> the method bound to
  \<^verbatim>\<open>cls\<close>, or to the type of \<^verbatim>\<open>inst\<close> when \<^verbatim>\<open>cls\<close> is \<^verbatim>\<open>None\<close>; for a
  \<^verbatim>\<open>staticmethod\<close> the wrapped function.
\<close>

definition bind_args :: "ftype \<Rightarrow> pyval \<Rightarrow> pyval \<Rightarrow> pyargs \<Rightarrow> pyargs" where
  "bind_args t inst cls args =
     (case t of
        Function \<Rightarrow> (if inst = PyNone then args else inst # args)
      | ClassMethod \<Rightarrow> (if cls = PyNone then py_type inst else cls) # args
      | StaticMethod \<Rightarrow> args)"

definition invoke :: "env \<Rightarrow> caller \<Rightarrow> fid \<Rightarrow> nat \<Rightarrow> pyargs \<Rightarrow> pykwargs \<Rightarrow> world \<Rightarrow> result" where
  "invoke env call func context args kwargs w =
     (if c_inst (contexts w context) = PyNone \<and> c_cls (contexts w context) = PyNone
      then (case f_type (env func) of
              ClassMethod \<Rightarrow> Some (Raise TypeError, w)
            | _ \<Rightarrow> run call (f_body (env func) args kwargs) w)
      else run call
             (f_body (env func)
                (bind_args (f_type (env func)) (c_inst (contexts w context))
                   (c_cls (contexts w context)) args)
                kwargs) w)"

text \<open>
  The \<^verbatim>\<open>__call__\<close> of the four advice classes. The fuel bounds the depth of calls
  from link to link and into nested dispatches.
\<close>

fun call_advice :: "env \<Rightarrow> nat \<Rightarrow> advice \<Rightarrow> nat \<Rightarrow> pyargs \<Rightarrow> pykwargs \<Rightarrow> world \<Rightarrow> result" where
  "call_advice env 0 a context args kwargs w = None"
| "call_advice env (Suc n) Stop context args kwargs w = Some (Raise PyException, w)"
| "call_advice env (Suc n) (Link Before func nextFct) context args kwargs w =
     (case invoke env (call_advice env n) func context args kwargs w of
        None \<Rightarrow> None
      | Some (Raise e, w1) \<Rightarrow> Some (Raise e, w1)
      | Some (Return _, w1) \<Rightarrow> call_advice env n nextFct context args kwargs w1)"
| "call_advice env (Suc n) (Link Around func nextFct) context args kwargs w =
     (let backup = tls_context w;
          w1 = w\<lparr>tls_context := Some context\<rparr>;
          w2 = w1\<lparr>contexts := (contexts w1)(context := (contexts w1 context)\<lparr>c_next := Some nextFct\<rparr>)\<rparr>
      in case invoke env (call_advice env n) func context args kwargs w2 of
           None \<Rightarrow> None
         | Some (Raise e, w3) \<Rightarrow> Some (Raise e, w3)
         | Some (Return result, w3) \<Rightarrow> Some (Return result, w3\<lparr>tls_context := backup\<rparr>))"
| "call_advice env (Suc n) (Link After func nextFct) context args kwargs w =
     (case call_advice env n nextFct context args kwargs w of
        None \<Rightarrow> None
      | Some (Raise e, w1) \<Rightarrow> Some (Raise e, w1)
      | Some (Return result, w1) \<Rightarrow>
          (if ''__result__'' \<in> fst ` set kwargs then Some (Raise TypeError, w1)
           else invoke env (call_advice env n) func context args
                  ((''__result__'', result) # kwargs) w1))"

text \<open>
  A call of the layered method at the address \<open>m\<close>, through the proxy got from
  \<^verbatim>\<open>inst\<close> and \<^verbatim>\<open>cls\<close>, or through the \<^verbatim>\<open>__call__\<close> of the descriptor itself,
  which is the same with both slots \<^verbatim>\<open>None\<close>.
\<close>

definition proxy_call ::
  "env \<Rightarrow> nat \<Rightarrow> nat \<Rightarrow> pyval \<Rightarrow> pyval \<Rightarrow> pyargs \<Rightarrow> pykwargs \<Rightarrow> world \<Rightarrow> result" where
  "proxy_call env fuel m inst cls args kwargs w =
     dispatch (call_advice env fuel) m inst cls args kwargs w"

definition descriptor_call ::
  "env \<Rightarrow> nat \<Rightarrow> nat \<Rightarrow> pyargs \<Rightarrow> pykwargs \<Rightarrow> world \<Rightarrow> result" where
  "descriptor_call env fuel m args kwargs w =
     dispatch (call_advice env fuel) m PyNone PyNone args kwargs w"

subsection \<open>Auxiliary notions\<close>

text \<open>The links of a chain, outermost first, without the final \<open>Stop\<close>.\<close>

fun links :: "advice \<Rightarrow> (fid \<times> kind) list" where
  "links Stop = []"
| "links (Link when func nextFct) = (func, when) # links nextFct"

text \<open>The entries of one layer that are eligible under a combination, in registration order.\<close>

definition layer_group :: "lmwgm list \<Rightarrow> layers \<Rightarrow> layer option \<Rightarrow> (fid \<times> kind) list" where
  "layer_group ms activelayers l =
     map (\<lambda>m. (lm_func m, lm_when m))
       (filter (\<lambda>m. lm_layer m = l \<and> lm_guard m activelayers) ms)"

text \<open>
  The positional arguments the wrapped function gets when \<^verbatim>\<open>_invoke\<close> calls the
  function object; \<open>None\<close> when the call of the object itself raises.
\<close>

definition received_args :: "ftype \<Rightarrow> pyval \<Rightarrow> pyval \<Rightarrow> pyargs \<Rightarrow> pyargs option" where
  "received_args t inst cls args =
     (if inst = PyNone \<and> cls = PyNone
      then (if t = ClassMethod then None else Some args)
      else Some (bind_args t inst cls args))"

text \<open>Client code that calls no layered method.\<close>

primrec no_calls :: "prog \<Rightarrow> bool" where
  "no_calls (Done r) = True"
| "no_calls (CallProceed args kwargs k) = (\<forall>r. no_calls (k r))"
| "no_calls (CallMethod m inst cls args kwargs k) = False"
| "no_calls (WithManager manager body k) = (no_calls body \<and> (\<forall>r. no_calls (k r)))"

text \<open>
  A descriptor is coherent when every chain in its cache is the chain that
  \<^verbatim>\<open>cacheMethods\<close> builds from its present list of entries for the key.
\<close>

definition coherent :: "descriptor \<Rightarrow> bool" where
  "coherent d = list_all (\<lambda>(key, a). a = fst (cacheMethods d key)) (cache d)"

text \<open>
  What calls do to the descriptors and the layers: \<open>w'\<close> has the base layers and the
  active layers of \<open>w\<close>, every descriptor has its list of entries, and every cache is
  the cache of \<open>w\<close> followed by new entries, each one the chain built for its key.
\<close>

definition cache_grows :: "descriptor \<Rightarrow> descriptor \<Rightarrow> bool" where
  "cache_grows d d' =
     (methods d' = methods d
      \<and> (\<exists>new. cache d' = cache d @ new
            \<and> list_all (\<lambda>(key, a). a = fst (cacheMethods d key)) new))"

definition grows :: "world \<Rightarrow> world \<Rightarrow> bool" where
  "grows w w' =
     (baseLayers w' = baseLayers w \<and> tls_activelayers w' = tls_activelayers w
      \<and> (\<forall>m. cache_grows (descriptors w m) (descriptors w' m)))"

subsection \<open>A running example\<close>

text \<open>
  Client functions used in the examples:
  \<^verbatim>\<open>def f0(*args, **kwargs): return args\<close>,
  \<^verbatim>\<open>def f1(*args, **kwargs): return proceed()\<close>,
  \<^verbatim>\<open>def f2(*args, **kwargs): return proceed(7, k=8)\<close>,
  \<^verbatim>\<open>def f3(*args, **kwargs): raise UserError\<close>,
  \<^verbatim>\<open>def f6(*args, **kwargs): proceed(); return proceed()\<close>,
  the \<^verbatim>\<open>classmethod\<close> object \<^verbatim>\<open>f7\<close> and the \<^verbatim>\<open>staticmethod\<close> object
  \<^verbatim>\<open>f8\<close>, both wrapping a function like \<^verbatim>\<open>f0\<close>;
  every other function returns \<^verbatim>\<open>None\<close>.
\<close>

definition example_env :: env where
  "example_env f =
     \<lparr>f_type = (if f = 7 then ClassMethod else if f = 8 then StaticMethod else Function),
      f_body = (\<lambda>args kwargs.
        if f = 0 \<or> f = 7 \<or> f = 8 then Done (Return (PyTuple args))
        else if f = 1 then CallProceed [] [] Done
        else if f = 2 then CallProceed [PyInt 7] [(''k'', PyInt 8)] Done
        else if f = 3 then Done (Raise (UserError 0))
        else if f = 6 then
          CallProceed [] []
            (\<lambda>r. case r of Raise e \<Rightarrow> Done (Raise e) | Return v \<Rightarrow> CallProceed [] [] Done)
        else Done (Return PyNone))\<rparr>"

text \<open>
  The same functions and \<^verbatim>\<open>def f5(*args, **kwargs): with inactiveLayer(L1): return m5()\<close>,
  where \<^verbatim>\<open>m5\<close> is the layered method at the address 5.
\<close>

definition nesting_env :: env where
  "nesting_env f =
     (if f = 5 then
        \<lparr>f_type = Function,
         f_body = (\<lambda>args kwargs.
           WithManager (inactiveLayer (Some 1)) (CallMethod 5 PyNone PyNone [] [] Done) Done)\<rparr>
      else example_env f)"

text \<open>
  The layered methods of the examples: a method with only a base implementation; one
  with a base implementation and \<^verbatim>\<open>around\<close> advice in two layers; one with advice in
  one layer and no base implementation; one whose layer advice has a guard that holds
  only for the combination \<^verbatim>\<open>(None, L1)\<close>; one whose base implementation raises; one
  whose advice in L1 calls the method again with L1 inactive; one whose advice in L1
  raises; one whose advice in L1 calls \<^verbatim>\<open>proceed\<close> twice; and one whose base
  implementation is a \<^verbatim>\<open>classmethod\<close>.
\<close>

definition example_method :: descriptor where
  "example_method = createlayeredmethod (Some 0) []"

definition two_layer_method :: descriptor where
  "two_layer_method =
     \<lparr>methods =
        [\<lparr>lm_layer = None, lm_func = 0, lm_when = Around, lm_guard = true_guard, lm_name = None\<rparr>,
         \<lparr>lm_layer = Some 1, lm_func = 1, lm_when = Around, lm_guard = true_guard,
          lm_name = Some ''m''\<rparr>,
         \<lparr>lm_layer = Some 2, lm_func = 2, lm_when = Around, lm_guard = true_guard,
          lm_name = Some ''m''\<rparr>],
      cache = []\<rparr>"

definition no_base_method :: descriptor where
  "no_base_method =
     \<lparr>methods =
        [\<lparr>lm_layer = Some 1, lm_func = 1, lm_when = Around, lm_guard = true_guard,
          lm_name = Some ''m''\<rparr>],
      cache = []\<rparr>"

definition guarded_method :: descriptor where
  "guarded_method =
     \<lparr>methods =
        [\<lparr>lm_layer = None, lm_func = 0, lm_when = Around, lm_guard = true_guard, lm_name = None\<rparr>,
         \<lparr>lm_layer = Some 1, lm_func = 4, lm_when = Before,
          lm_guard = (\<lambda>activelayers. activelayers = [None, Some 1]), lm_name = Some ''m''\<rparr>],
      cache = []\<rparr>"

definition raising_method :: descriptor where
  "raising_method = createlayeredmethod (Some 3) []"

definition layer1_method :: "fid \<Rightarrow> fid \<Rightarrow> descriptor" where
  "layer1_method b f =
     createlayeredmethod (Some b)
       [\<lparr>lm_layer = Some 1, lm_func = f, lm_when = Around, lm_guard = true_guard,
         lm_name = Some ''m''\<rparr>]"

definition example_methods :: "nat \<Rightarrow> descriptor" where
  "example_methods m =
     (if m = 0 then example_method
      else if m = 1 then two_layer_method
      else if m = 2 then no_base_method
      else if m = 3 then guarded_method
      else if m = 4 then raising_method
      else if m = 5 then layer1_method 0 5
      else if m = 6 then layer1_method 0 3
      else if m = 7 then layer1_method 0 6
      else if m = 8 then createlayeredmethod (Some 7) []
      else \<lparr>methods = [], cache = []\<rparr>)"

definition example_world :: world where
  "example_world = initial_world\<lparr>descriptors := example_methods\<rparr>"

text \<open>The example world inside \<^verbatim>\<open>with activeLayer(L1):\<close>.\<close>

definition layer1_world :: world where
  "layer1_world = snd (manager_enter (activeLayer (Some 1)) example_world)"

text \<open>
  The example world with a cache of the first method that holds, for the combination
  \<^verbatim>\<open>(None,)\<close>, a chain that is not the one built from the entries of the method.
\<close>

definition stale_world :: world where
  "stale_world =
     example_world\<lparr>descriptors := example_methods(0 := example_method\<lparr>cache := [([None], Stop)]\<rparr>)\<rparr>"

section \<open>Properties\<close>

subsection \<open>The cache dict\<close>

lemma map_of_cache_set:
  "map_of (cache_set key v c) k = (if k = key then Some v else map_of c k)"
  by (induction c) auto

lemma cache_set_absent: "map_of c key = None \<Longrightarrow> cache_set key v c = c @ [(key, v)]"
  by (induction c) (auto split: if_splits)

lemma lookup_advice_other_key:
  "c1 \<noteq> c2 \<Longrightarrow>
   fst (lookup_advice (d\<lparr>cache := cache_set c1 ch (cache d)\<rparr>) c2) = fst (lookup_advice d c2)"
  by (simp add: lookup_advice_def cache_get_def map_of_cache_set cacheMethods_def Let_def
      split: option.splits)

lemma lookup_advice_hit:
  "cache_get (cache d) al = Some a \<Longrightarrow> lookup_advice d al = (a, d)"
  by (simp add: lookup_advice_def)

lemma lookup_advice_miss:
  "cache_get (cache d) al = None \<Longrightarrow>
   lookup_advice d al
     = (fst (cacheMethods d al), d\<lparr>cache := cache d @ [(al, fst (cacheMethods d al))]\<rparr>)"
  by (simp add: lookup_advice_def cacheMethods_def Let_def cache_get_def cache_set_absent)

lemma fst_cacheMethods:
  "fst (cacheMethods d key) = createChain (rev (collect_methods (methods d) key))"
  by (simp add: cacheMethods_def Let_def)

lemma cache_get_cacheMethods:
  "cache_get (cache (snd (cacheMethods d c1))) c2
     = (if c2 = c1 then Some (fst (cacheMethods d c1)) else cache_get (cache d) c2)"
  by (simp add: cacheMethods_def Let_def cache_get_def map_of_cache_set)

lemma cache_get_append:
  "cache_get c key = Some a \<Longrightarrow> cache_get (c @ new) key = Some a"
  by (simp add: cache_get_def)

subsection \<open>Dispatch, step by step\<close>

lemma dispatch_unfold:
  "dispatch call m inst cls args kwargs w =
     call (fst (lookup_advice (descriptors w m) (baseLayers w @ tls_activelayers w)))
       (n_contexts w) args kwargs
       (snd (new_context inst cls
          (w\<lparr>descriptors := (descriptors w)
               (m := snd (lookup_advice (descriptors w m) (baseLayers w @ tls_activelayers w)))\<rparr>)))"
  by (simp add: dispatch_def new_context_def Let_def split: prod.splits)

lemma new_context_descriptors:
  "snd (new_context inst cls (w\<lparr>descriptors := D\<rparr>))
     = (snd (new_context inst cls w))\<lparr>descriptors := D\<rparr>"
  by (cases w) (simp add: new_context_def)

lemma invoke_received:
  "invoke env call f c args kwargs w
     = (case received_args (f_type (env f)) (c_inst (contexts w c)) (c_cls (contexts w c)) args of
          None \<Rightarrow> Some (Raise TypeError, w)
        | Some args1 \<Rightarrow> run call (f_body (env f) args1 kwargs) w)"
  by (simp add: invoke_def received_args_def split: ftype.splits)

subsection \<open>The running example\<close>

lemmas example_defs =
  proxy_call_def dispatch_def lookup_advice_def cache_get_def cacheMethods_def
  collect_methods_def createlayeredmethod_def true_guard_def new_context_def
  initial_world_def example_world_def example_methods_def layer1_world_def
  example_method_def two_layer_method_def no_base_method_def guarded_method_def
  raising_method_def layer1_method_def
  manager_enter_def manager_exit_def activeLayer_def inactiveLayer_def getActiveLayers_def
  invoke_def proceed_def bind_args_def example_env_def nesting_env_def Let_def

lemma example_call:
  "map_option fst (proxy_call example_env 2 0 PyNone PyNone [PyInt 1] [] example_world)
   = Some (Return (PyTuple [PyInt 1]))"
  by (simp add: example_defs numeral_2_eq_2)


lemma example_env_no_calls: "no_calls (f_body (example_env f) args kwargs)"
  by (simp add: example_env_def split: outcome.splits)

text \<open>
  How \<^verbatim>\<open>_invoke\<close> binds: a \<^verbatim>\<open>classmethod\<close> gets the class, also when only the
  instance is known, and cannot be called with both slots \<^verbatim>\<open>None\<close>; a plain function
  gets the instance when there is one.
\<close>

lemma binding_examples:
  "map_option fst (proxy_call example_env 2 8 (PyObj 1 0) (PyClass 1) [PyInt 1] [] example_world)
     = Some (Return (PyTuple [PyClass 1, PyInt 1]))
   \<and> map_option fst (proxy_call example_env 2 8 (PyObj 1 0) PyNone [PyInt 1] [] example_world)
     = Some (Return (PyTuple [PyClass 1, PyInt 1]))
   \<and> map_option fst (proxy_call example_env 2 8 PyNone PyNone [PyInt 1] [] example_world)
     = Some (Raise TypeError)
   \<and> map_option fst (proxy_call example_env 2 0 (PyObj 1 0) (PyClass 1) [PyInt 1] [] example_world)
     = Some (Return (PyTuple [PyObj 1 0, PyInt 1]))
   \<and> map_option fst (proxy_call example_env 2 0 PyNone (PyClass 1) [PyInt 1] [] example_world)
     = Some (Return (PyTuple [PyInt 1]))"
  by (simp add: example_defs numeral_2_eq_2)

subsection \<open>Scoped activation\<close>

text \<open>
  Claim C5. Entering \<^verbatim>\<open>activeLayers(*ls)\<close> installs the previous active layers
  without the members of \<open>ls\<close>, followed by \<open>ls\<close>; leaving the scope restores the
  tuple saved on entry whatever the state \<open>w'\<close> at that moment is; and entering a scope
  for \<open>as\<close>, inside it one for \<open>bs\<close>, then leaving both, first gives back the tuple
  the inner scope found and then the tuple the outer scope found.
\<close>

theorem activation_scopes_nest:
  "tls_activelayers (snd (manager_enter (activeLayers ls) w))
     = filter (\<lambda>l. l \<notin> set ls) (tls_activelayers w) @ ls
   \<and> tls_activelayers (manager_exit (fst (manager_enter (activeLayers ls) w)) w')
       = tls_activelayers w
   \<and> (let ea = manager_enter (activeLayers as) w;
           eb = manager_enter (activeLayers bs) (snd ea)
       in tls_activelayers (manager_exit (fst eb) (snd eb)) = tls_activelayers (snd ea)
          \<and> tls_activelayers (manager_exit (fst ea) (manager_exit (fst eb) (snd eb)))
              = tls_activelayers w)"
  by (simp add: manager_enter_def manager_exit_def activeLayers_def getActiveLayers_def Let_def)

subsection \<open>What a call leaves unchanged\<close>

text \<open>
  The relation \<open>grows\<close> is reflexive and transitive, and every step of a dispatch stays
  inside it: looking the chain up appends at most the chain built for the key, the links
  write the context only, and a \<^verbatim>\<open>with\<close> block gives back the active layers it found.
\<close>

lemma cache_grows_refl: "cache_grows d d"
  by (simp add: cache_grows_def)

lemma cache_grows_trans:
  assumes "cache_grows d d'" and "cache_grows d' d''"
  shows "cache_grows d d''"
proof -
  from assms(1) obtain new1 where m1: "methods d' = methods d"
    and c1: "cache d' = cache d @ new1"
    and n1: "list_all (\<lambda>(key, a). a = fst (cacheMethods d key)) new1"
    by (auto simp: cache_grows_def)
  from assms(2) obtain new2 where m2: "methods d'' = methods d'"
    and c2: "cache d'' = cache d' @ new2"
    and n2: "list_all (\<lambda>(key, a). a = fst (cacheMethods d' key)) new2"
    by (auto simp: cache_grows_def)
  from n2 m1 have "list_all (\<lambda>(key, a). a = fst (cacheMethods d key)) new2"
    by (simp add: fst_cacheMethods)
  with n1 have "list_all (\<lambda>(key, a). a = fst (cacheMethods d key)) (new1 @ new2)"
    by simp
  moreover from c1 c2 have "cache d'' = cache d @ (new1 @ new2)" by simp
  ultimately show ?thesis using m1 m2 unfolding cache_grows_def by metis
qed

lemma grows_refl: "grows w w"
  by (simp add: grows_def cache_grows_refl)

lemma grows_trans: "grows w w' \<Longrightarrow> grows w' w'' \<Longrightarrow> grows w w''"
  unfolding grows_def using cache_grows_trans by metis

lemma cache_grows_lookup: "cache_grows d (snd (lookup_advice d al))"
proof (cases "cache_get (cache d) al")
  case None
  then show ?thesis by (simp add: lookup_advice_miss cache_grows_def)
next
  case (Some a)
  then show ?thesis by (simp add: lookup_advice_hit cache_grows_refl)
qed

lemma grows_dispatch_state:
  "grows w (snd (new_context inst cls
          (w\<lparr>descriptors := (descriptors w)(m := snd (lookup_advice (descriptors w m) al))\<rparr>)))"
  by (simp add: grows_def new_context_def cache_grows_refl cache_grows_lookup)

lemma dispatch_grows:
  assumes call: "\<And>a c args kw w r w'. call a c args kw w = Some (r, w') \<Longrightarrow> grows w w'"
    and d: "dispatch call m inst cls args kwargs w = Some (r, w')"
  shows "grows w w'"
proof -
  from d have "grows (snd (new_context inst cls
          (w\<lparr>descriptors := (descriptors w)
               (m := snd (lookup_advice (descriptors w m) (baseLayers w @ tls_activelayers w)))\<rparr>))) w'"
    unfolding dispatch_unfold by (rule call)
  with grows_dispatch_state show ?thesis by (rule grows_trans)
qed

lemma proceed_grows:
  assumes call: "\<And>a c args kw w r w'. call a c args kw w = Some (r, w') \<Longrightarrow> grows w w'"
    and p: "proceed call args kwargs w = Some (r, w')"
  shows "grows w w'"
proof (cases "tls_context w")
  case None
  with p show ?thesis by (simp add: proceed_def grows_refl)
next
  case (Some c)
  show ?thesis
  proof (cases "c_next (contexts w c)")
    case None
    with Some p show ?thesis by (simp add: proceed_def grows_refl)
  next
    case (Some nextFct)
    with \<open>tls_context w = Some c\<close> p have "call nextFct c args kwargs w = Some (r, w')"
      by (simp add: proceed_def)
    then show ?thesis by (rule call)
  qed
qed

lemma grows_with:
  assumes "grows (snd (manager_enter manager w)) w2"
  shows "grows w (manager_exit (fst (manager_enter manager w)) w2)"
  using assms by (simp add: grows_def manager_enter_def manager_exit_def Let_def)

lemma run_grows:
  assumes call: "\<And>a c args kw w r w'. call a c args kw w = Some (r, w') \<Longrightarrow> grows w w'"
  shows "run call p w = Some (r, w') \<Longrightarrow> grows w w'"
proof (induction p arbitrary: w r w')
  case (Done x)
  then show ?case by (simp add: grows_refl)
next
  case (CallProceed args kw k)
  from CallProceed.prems obtain r1 w1 where
    p: "proceed call args kw w = Some (r1, w1)" and rest: "run call (k r1) w1 = Some (r, w')"
    by (cases "proceed call args kw w") auto
  have "grows w w1" using call p by (rule proceed_grows)
  moreover have "grows w1 w'" using rest by (rule CallProceed.IH [OF rangeI])
  ultimately show ?case by (rule grows_trans)
next
  case (CallMethod m inst cls args kw k)
  from CallMethod.prems obtain r1 w1 where
    p: "dispatch call m inst cls args kw w = Some (r1, w1)"
    and rest: "run call (k r1) w1 = Some (r, w')"
    by (cases "dispatch call m inst cls args kw w") auto
  have "grows w w1" using call p by (rule dispatch_grows)
  moreover have "grows w1 w'" using rest by (rule CallMethod.IH [OF rangeI])
  ultimately show ?case by (rule grows_trans)
next
  case (WithManager manager body k)
  obtain manager1 w1 where e: "manager_enter manager w = (manager1, w1)"
    by (cases "manager_enter manager w")
  with WithManager.prems obtain r1 w2 where
    b: "run call body w1 = Some (r1, w2)"
    and rest: "run call (k r1) (manager_exit manager1 w2) = Some (r, w')"
    by (cases "run call body w1") auto
  have "grows w1 w2" using b by (rule WithManager.IH(1))
  with e have "grows w (manager_exit manager1 w2)"
    using grows_with [of manager w w2] by simp
  moreover have "grows (manager_exit manager1 w2) w'"
    using rest by (rule WithManager.IH(2) [OF rangeI])
  ultimately show ?case by (rule grows_trans)
qed

lemma invoke_grows:
  assumes call: "\<And>a c args kw w r w'. call a c args kw w = Some (r, w') \<Longrightarrow> grows w w'"
    and i: "invoke env call f c args kw w = Some (r, w')"
  shows "grows w w'"
proof -
  from i have "(r, w') = (Raise TypeError, w) \<or> (\<exists>p. run call p w = Some (r, w'))"
    unfolding invoke_def by (auto split: if_splits ftype.splits)
  then show ?thesis
  proof
    assume "(r, w') = (Raise TypeError, w)"
    then show ?thesis by (simp add: grows_refl)
  next
    assume "\<exists>p. run call p w = Some (r, w')"
    then obtain p where "run call p w = Some (r, w')" ..
    then show ?thesis by (rule run_grows [rotated]) (rule call)
  qed
qed

lemma grows_context_update:
  "grows w (w\<lparr>tls_context := x, contexts := y\<rparr>)" "grows w (w\<lparr>tls_context := x\<rparr>)"
  by (simp_all add: grows_def cache_grows_refl)

lemma call_advice_grows:
  "call_advice env n a c args kw w = Some (r, w') \<Longrightarrow> grows w w'"
proof (induction n arbitrary: a c args kw w r w')
  case 0
  then show ?case by simp
next
  case (Suc n)
  have inv: "grows w w'"
    if "invoke env (call_advice env n) f c args kw w = Some (r, w')" for f c args kw w r w'
    using that by (rule invoke_grows [rotated]) (rule Suc.IH)
  show ?case
  proof (cases a)
    case Stop
    with Suc.prems show ?thesis by (simp add: grows_refl)
  next
    case (Link k f nxt)
    show ?thesis
    proof (cases k)
      case Before
      show ?thesis
      proof (cases "invoke env (call_advice env n) f c args kw w")
        case None
        with Before Link Suc.prems show ?thesis by simp
      next
        case (Some p)
        obtain r1 w1 where p: "p = (r1, w1)" by (cases p)
        have w1: "grows w w1" using Some [unfolded p] by (rule inv)
        show ?thesis
        proof (cases r1)
          case (Raise e)
          with Before Link Suc.prems Some p w1 show ?thesis by simp
        next
          case (Return v)
          with Before Link Suc.prems Some p
          have "call_advice env n nxt c args kw w1 = Some (r, w')" by simp
          then have "grows w1 w'" by (rule Suc.IH)
          with w1 show ?thesis by (rule grows_trans)
        qed
      qed
    next
      case Around
      define w2 where "w2 = w\<lparr>tls_context := Some c,
        contexts := (contexts w)(c := (contexts w c)\<lparr>c_next := Some nxt\<rparr>)\<rparr>"
      have w2: "grows w w2" unfolding w2_def by (rule grows_context_update)
      show ?thesis
      proof (cases "invoke env (call_advice env n) f c args kw w2")
        case None
        with Around Link Suc.prems show ?thesis by (simp add: w2_def Let_def)
      next
        case (Some p)
        obtain r1 w3 where p: "p = (r1, w3)" by (cases p)
        have "grows w2 w3" using Some [unfolded p] by (rule inv)
        with w2 have w3: "grows w w3" by (rule grows_trans)
        show ?thesis
        proof (cases r1)
          case (Raise e)
          with Around Link Suc.prems Some p w3 show ?thesis by (simp add: w2_def Let_def)
        next
          case (Return v)
          with Around Link Suc.prems Some p have "w' = w3\<lparr>tls_context := tls_context w\<rparr>"
            by (simp add: w2_def Let_def)
          with grows_trans [OF w3 grows_context_update(2)] show ?thesis by simp
        qed
      qed
    next
      case After
      show ?thesis
      proof (cases "call_advice env n nxt c args kw w")
        case None
        with After Link Suc.prems show ?thesis by simp
      next
        case (Some p)
        obtain r1 w1 where p: "p = (r1, w1)" by (cases p)
        have w1: "grows w w1" using Some [unfolded p] by (rule Suc.IH)
        show ?thesis
        proof (cases r1)
          case (Raise e)
          with After Link Suc.prems Some p w1 show ?thesis by simp
        next
          case (Return v)
          show ?thesis
          proof (cases "''__result__'' \<in> fst ` set kw")
            case True
            with Return After Link Suc.prems Some p w1 show ?thesis by simp
          next
            case False
            with Return After Link Suc.prems Some p
            have "invoke env (call_advice env n) f c args ((''__result__'', v) # kw) w1
                    = Some (r, w')" by simp
            then have "grows w1 w'" by (rule inv)
            with w1 show ?thesis by (rule grows_trans)
          qed
        qed
      qed
    qed
  qed
qed

lemma proxy_call_grows:
  assumes "proxy_call env n m inst cls args kwargs w = Some (r, w')"
  shows "grows w w'"
proof -
  from assms have "dispatch (call_advice env n) m inst cls args kwargs w = Some (r, w')"
    by (simp add: proxy_call_def)
  then show ?thesis by (rule dispatch_grows [rotated]) (rule call_advice_grows)
qed

text \<open>
  Client code that calls no layered method neither reads nor writes the descriptors: a
  link run in a state with other descriptors does the same and leaves those descriptors.
\<close>

lemma proceed_descriptors:
  assumes call: "\<And>a c args kw w. call a c args kw (w\<lparr>descriptors := D\<rparr>)
      = map_option (\<lambda>(r, w'). (r, w'\<lparr>descriptors := D\<rparr>)) (call a c args kw w)"
  shows "proceed call args kw (w\<lparr>descriptors := D\<rparr>)
      = map_option (\<lambda>(r, w'). (r, w'\<lparr>descriptors := D\<rparr>)) (proceed call args kw w)"
  by (simp add: proceed_def call split: option.splits)

lemma run_descriptors:
  assumes call: "\<And>a c args kw w. call a c args kw (w\<lparr>descriptors := D\<rparr>)
      = map_option (\<lambda>(r, w'). (r, w'\<lparr>descriptors := D\<rparr>)) (call a c args kw w)"
  shows "no_calls p \<Longrightarrow> run call p (w\<lparr>descriptors := D\<rparr>)
      = map_option (\<lambda>(r, w'). (r, w'\<lparr>descriptors := D\<rparr>)) (run call p w)"
proof (induction p arbitrary: w)
  case (Done x)
  then show ?case by simp
next
  case (CallProceed args kw k)
  then have k: "\<And>r w. run call (k r) (w\<lparr>descriptors := D\<rparr>)
      = map_option (\<lambda>(r, w'). (r, w'\<lparr>descriptors := D\<rparr>)) (run call (k r) w)"
    by simp
  show ?case
    by (cases "proceed call args kw w") (auto simp: proceed_descriptors [where call = call and D = D, OF call] k)
next
  case (CallMethod m inst cls args kw k)
  then show ?case by simp
next
  case (WithManager manager body k)
  then have b: "\<And>w. run call body (w\<lparr>descriptors := D\<rparr>)
      = map_option (\<lambda>(r, w'). (r, w'\<lparr>descriptors := D\<rparr>)) (run call body w)"
    and k: "\<And>r w. run call (k r) (w\<lparr>descriptors := D\<rparr>)
      = map_option (\<lambda>(r, w'). (r, w'\<lparr>descriptors := D\<rparr>)) (run call (k r) w)"
    by simp_all
  have e: "manager_enter manager (w\<lparr>descriptors := D\<rparr>)
      = (fst (manager_enter manager w), snd (manager_enter manager w)\<lparr>descriptors := D\<rparr>)"
    by (simp add: manager_enter_def Let_def)
  have x: "\<And>m1 w2. manager_exit m1 (w2\<lparr>descriptors := D\<rparr>) = manager_exit m1 w2\<lparr>descriptors := D\<rparr>"
    by (simp add: manager_exit_def)
  show ?case
    by (cases "run call body (snd (manager_enter manager w))")
      (auto simp: e b k x split: prod.splits)
qed

lemma invoke_descriptors:
  assumes call: "\<And>a c args kw w. call a c args kw (w\<lparr>descriptors := D\<rparr>)
      = map_option (\<lambda>(r, w'). (r, w'\<lparr>descriptors := D\<rparr>)) (call a c args kw w)"
    and env: "\<And>f args kw. no_calls (f_body (env f) args kw)"
  shows "invoke env call f c args kw (w\<lparr>descriptors := D\<rparr>)
      = map_option (\<lambda>(r, w'). (r, w'\<lparr>descriptors := D\<rparr>)) (invoke env call f c args kw w)"
  by (simp add: invoke_def run_descriptors [where call = call and D = D, OF call env] split: ftype.splits)

lemma call_advice_descriptors:
  assumes env: "\<And>f args kw. no_calls (f_body (env f) args kw)"
  shows "call_advice env n a c args kw (w\<lparr>descriptors := D\<rparr>)
      = map_option (\<lambda>(r, w'). (r, w'\<lparr>descriptors := D\<rparr>)) (call_advice env n a c args kw w)"
proof (induction n arbitrary: a c args kw w)
  case 0
  then show ?case by simp
next
  case (Suc n)
  have inv: "invoke env (call_advice env n) f c args kw (w\<lparr>descriptors := D\<rparr>)
      = map_option (\<lambda>(r, w'). (r, w'\<lparr>descriptors := D\<rparr>))
          (invoke env (call_advice env n) f c args kw w)" for f c args kw w
    by (rule invoke_descriptors [where call = "call_advice env n" and D = D and env = env, OF Suc.IH env])
  show ?case
  proof (cases a)
    case Stop
    then show ?thesis by simp
  next
    case (Link k f nxt)
    show ?thesis
    proof (cases k)
      case Before
      with Link show ?thesis
        by (cases "invoke env (call_advice env n) f c args kw w")
          (auto simp: inv Suc.IH split: outcome.splits)
    next
      case Around
      have u: "w\<lparr>descriptors := D, tls_context := Some c,
                 contexts := (contexts w)(c := (contexts w c)\<lparr>c_next := Some nxt\<rparr>)\<rparr>
             = w\<lparr>tls_context := Some c,
                 contexts := (contexts w)(c := (contexts w c)\<lparr>c_next := Some nxt\<rparr>)\<rparr>
                 \<lparr>descriptors := D\<rparr>" by simp
      from Around Link show ?thesis
        by (cases "invoke env (call_advice env n) f c args kw
               (w\<lparr>tls_context := Some c,
                 contexts := (contexts w)(c := (contexts w c)\<lparr>c_next := Some nxt\<rparr>)\<rparr>)")
          (auto simp: Let_def u inv simp del: world.update_convs split: outcome.splits)
    next
      case After
      with Link show ?thesis
        by (cases "call_advice env n nxt c args kw w")
          (auto simp: inv Suc.IH split: outcome.splits)
    qed
  qed
qed





subsection \<open>proceed outside a dispatch\<close>




subsection \<open>The cache key\<close>

lemma dispatch_other_key:
  assumes env: "\<And>f args kw. no_calls (f_body (env f) args kw)"
    and k: "c1 \<noteq> baseLayers w @ tls_activelayers w"
  shows "map_option fst
           (proxy_call env n m inst cls args kwargs
              (w\<lparr>descriptors := (descriptors w)
                   (m := (descriptors w m)\<lparr>cache := cache_set c1 ch (cache (descriptors w m))\<rparr>)\<rparr>))
         = map_option fst (proxy_call env n m inst cls args kwargs w)"
proof -
  let ?al = "baseLayers w @ tls_activelayers w"
  let ?d = "descriptors w m"
  let ?d' = "?d\<lparr>cache := cache_set c1 ch (cache ?d)\<rparr>"
  let ?a = "fst (lookup_advice ?d ?al)"
  let ?w0 = "snd (new_context inst cls w)"
  have a: "fst (lookup_advice ?d' ?al) = ?a"
    using k by (rule lookup_advice_other_key)
  have ind: "map_option fst (call_advice env n ?a (n_contexts w) args kwargs (?w0\<lparr>descriptors := D\<rparr>))
      = map_option fst (call_advice env n ?a (n_contexts w) args kwargs ?w0)" for D
    by (simp add: call_advice_descriptors [where env = env, OF env] option.map_comp comp_def
        split_def)
  have "proxy_call env n m inst cls args kwargs (w\<lparr>descriptors := (descriptors w)(m := ?d')\<rparr>)
      = call_advice env n ?a (n_contexts w) args kwargs
          (?w0\<lparr>descriptors := (descriptors w)(m := snd (lookup_advice ?d' ?al))\<rparr>)"
    by (simp add: proxy_call_def dispatch_unfold a new_context_descriptors)
  moreover have "proxy_call env n m inst cls args kwargs w
      = call_advice env n ?a (n_contexts w) args kwargs
          (?w0\<lparr>descriptors := (descriptors w)(m := snd (lookup_advice ?d ?al))\<rparr>)"
    by (simp add: proxy_call_def dispatch_unfold new_context_descriptors)
  ultimately show ?thesis by (simp only: ind)
qed

text \<open>
  Claim C8. A dispatch looks its chain up under the combination of the call, the base
  layers followed by the active layers: when the cache has a chain under that key, the
  dispatch calls that chain, whatever it is; when it has none, the dispatch builds the
  chain for the combination, appends it to the cache under that key and calls it. A chain
  stored under \<open>c1\<close> is found under \<open>c1\<close> and leaves every other key as it was; the
  chain that a dispatch under \<open>c2\<close> gets does not depend on what the cache holds under
  another key \<open>c1\<close>; and, the advice calling no layered method, neither does the
  outcome of the call.
\<close>

theorem cache_key_is_combination:
  "(cache_get (cache (descriptors w m)) (baseLayers w @ tls_activelayers w) = Some a \<longrightarrow>
      proxy_call env n m inst cls args kwargs w
        = call_advice env n a (n_contexts w) args kwargs (snd (new_context inst cls w)))
   \<and> (cache_get (cache (descriptors w m)) (baseLayers w @ tls_activelayers w) = None \<longrightarrow>
      proxy_call env n m inst cls args kwargs w
        = call_advice env n
            (fst (cacheMethods (descriptors w m) (baseLayers w @ tls_activelayers w)))
            (n_contexts w) args kwargs
            (snd (new_context inst cls
               (w\<lparr>descriptors := (descriptors w)
                    (m := (descriptors w m)
                       \<lparr>cache := cache (descriptors w m)
                          @ [(baseLayers w @ tls_activelayers w,
                              fst (cacheMethods (descriptors w m)
                                     (baseLayers w @ tls_activelayers w)))]\<rparr>)\<rparr>))))
   \<and> cache_get (cache (snd (cacheMethods d c1))) c1 = Some (fst (cacheMethods d c1))
   \<and> (c1 \<noteq> c2 \<longrightarrow>
        cache_get (cache (snd (cacheMethods d c1))) c2 = cache_get (cache d) c2
        \<and> fst (lookup_advice (d\<lparr>cache := cache_set c1 ch (cache d)\<rparr>) c2)
            = fst (lookup_advice d c2))
   \<and> (c1 \<noteq> baseLayers w @ tls_activelayers w
        \<and> (\<forall>f args kwargs. no_calls (f_body (env f) args kwargs)) \<longrightarrow>
        map_option fst
          (proxy_call env n m inst cls args kwargs
             (w\<lparr>descriptors := (descriptors w)
                  (m := (descriptors w m)\<lparr>cache := cache_set c1 ch (cache (descriptors w m))\<rparr>)\<rparr>))
        = map_option fst (proxy_call env n m inst cls args kwargs w))"
proof -
  let ?al = "baseLayers w @ tls_activelayers w"
  have hit: "proxy_call env n m inst cls args kwargs w
        = call_advice env n a (n_contexts w) args kwargs (snd (new_context inst cls w))"
    if "cache_get (cache (descriptors w m)) ?al = Some a"
    using that by (simp add: proxy_call_def dispatch_unfold lookup_advice_hit)
  have miss: "proxy_call env n m inst cls args kwargs w
        = call_advice env n (fst (cacheMethods (descriptors w m) ?al)) (n_contexts w) args kwargs
            (snd (new_context inst cls
               (w\<lparr>descriptors := (descriptors w)
                    (m := (descriptors w m)
                       \<lparr>cache := cache (descriptors w m)
                          @ [(?al, fst (cacheMethods (descriptors w m) ?al))]\<rparr>)\<rparr>)))"
    if "cache_get (cache (descriptors w m)) ?al = None"
    using that by (simp add: proxy_call_def dispatch_unfold lookup_advice_miss)
  have other: "map_option fst
          (proxy_call env n m inst cls args kwargs
             (w\<lparr>descriptors := (descriptors w)
                  (m := (descriptors w m)\<lparr>cache := cache_set c1 ch (cache (descriptors w m))\<rparr>)\<rparr>))
        = map_option fst (proxy_call env n m inst cls args kwargs w)"
    if "c1 \<noteq> ?al" "\<forall>f args kwargs. no_calls (f_body (env f) args kwargs)"
    using that by (intro dispatch_other_key) auto
  from hit miss other show ?thesis
    by (simp add: cache_get_cacheMethods lookup_advice_other_key)
qed

text \<open>
  A cache that holds the bare \<open>Stop\<close> under \<^verbatim>\<open>(None,)\<close>: the call under that
  combination runs it and raises. The cache of the example: the call builds the chain, and
  an entry under \<^verbatim>\<open>(None, L1)\<close> does not change the outcome.
\<close>

theorem cache_key_is_combination_witness:
  "cache_get (cache (descriptors stale_world 0))
       (baseLayers stale_world @ tls_activelayers stale_world) = Some Stop
   \<and> map_option fst (proxy_call example_env 2 0 PyNone PyNone [PyInt 1] [] stale_world)
       = Some (Raise PyException)
   \<and> cache_get (cache (descriptors example_world 0))
       (baseLayers example_world @ tls_activelayers example_world) = None
   \<and> map_option fst (proxy_call example_env 2 0 PyNone PyNone [PyInt 1] [] example_world)
       = Some (Return (PyTuple [PyInt 1]))
   \<and> [None, Some 1] \<noteq> baseLayers example_world @ tls_activelayers example_world
   \<and> (\<forall>f args kwargs. no_calls (f_body (example_env f) args kwargs))
   \<and> map_option fst
        (proxy_call example_env 2 0 PyNone PyNone [PyInt 1] []
           (example_world\<lparr>descriptors := (descriptors example_world)
              (0 := (descriptors example_world 0)
                 \<lparr>cache := cache_set [None, Some 1] Stop (cache (descriptors example_world 0))\<rparr>)\<rparr>))
       = Some (Return (PyTuple [PyInt 1]))"
proof -
  have h1: "cache_get (cache (descriptors stale_world 0))
       (baseLayers stale_world @ tls_activelayers stale_world) = Some Stop"
    by (simp add: stale_world_def example_world_def initial_world_def cache_get_def)
  have h2: "cache_get (cache (descriptors example_world 0))
       (baseLayers example_world @ tls_activelayers example_world) = None"
    by (simp add: example_world_def initial_world_def example_methods_def example_method_def
        createlayeredmethod_def cache_get_def)
  have h3: "[None, Some 1] \<noteq> baseLayers example_world @ tls_activelayers example_world"
    by (simp add: example_world_def initial_world_def)
  have h4: "\<forall>f args kwargs. no_calls (f_body (example_env f) args kwargs)"
    by (simp add: example_env_no_calls)
  have s: "call_advice example_env 2 Stop (n_contexts stale_world) [PyInt 1] []
             (snd (new_context PyNone PyNone stale_world))
           = Some (Raise PyException, snd (new_context PyNone PyNone stale_world))"
    by (simp add: numeral_2_eq_2)
  from h1 h2 h3 h4 s example_call
    cache_key_is_combination [where w = stale_world and m = 0 and a = Stop and env = example_env
      and n = 2 and inst = PyNone and cls = PyNone and args = "[PyInt 1]" and kwargs = "[]"]
    cache_key_is_combination [where w = example_world and m = 0 and env = example_env
      and n = 2 and inst = PyNone and cls = PyNone and args = "[PyInt 1]" and kwargs = "[]"
      and ?c1.0 = "[None, Some 1]" and ch = Stop]
  show ?thesis by simp
qed

subsection \<open>The order of the links\<close>

lemma links_createChain: "links (createChain xs) = xs"
  by (induction xs) auto

lemma collect_methods_groups:
  "collect_methods ms al = concat (map (layer_group ms al) al)"
  by (simp add: collect_methods_def layer_group_def [abs_def])

lemma links_cacheMethods:
  "links (fst (cacheMethods d al)) = rev (concat (map (layer_group (methods d) al) al))"
  by (simp add: cacheMethods_def Let_def links_createChain collect_methods_groups)

text \<open>
  Claim C4, as the code has it. For every method and every combination the links of the
  built chain are, from the outside in, the eligible entries layer by layer in the reverse
  order of the combination, and within a layer in the reverse order of registration: the
  entries of the layer activated last are outermost. When the combination begins with
  \<^verbatim>\<open>None\<close> the entries of the base layer are therefore the innermost ones.
\<close>

theorem chain_order:
  "links (fst (cacheMethods d al)) = rev (concat (map (layer_group (methods d) al) al))
   \<and> links (fst (cacheMethods d (None # ls)))
       = rev (concat (map (layer_group (methods d) (None # ls)) ls))
         @ rev (layer_group (methods d) (None # ls) None)"
  by (simp add: links_cacheMethods)

text \<open>With L1 activated, then L2: the advice of L2 wraps that of L1, which wraps the base.\<close>

lemma chain_order_example:
  "fst (cacheMethods two_layer_method [None, Some 1, Some 2])
   = Link Around 2 (Link Around 1 (Link Around 0 Stop))"
  by (simp add: cacheMethods_def collect_methods_def two_layer_method_def true_guard_def Let_def)

text \<open>
  Claim C4 as stated fails for a combination that does not begin with \<^verbatim>\<open>None\<close>:
  after \<^verbatim>\<open>globalDeactivateLayer(None)\<close>, \<^verbatim>\<open>globalActivateLayer(L1)\<close> and
  \<^verbatim>\<open>globalActivateLayer(None)\<close> the combination is \<^verbatim>\<open>(L1, None)\<close>, and the base
  implementation is the outermost link, wrapping the advice of L1.
\<close>

theorem base_outermost_counterexample:
  "(case globalDeactivateLayer None initial_world of
      Inl e \<Rightarrow> False
    | Inr w1 \<Rightarrow>
        (case globalActivateLayer (Some 1) w1 of
           Inl e \<Rightarrow> False
         | Inr w2 \<Rightarrow>
             (case globalActivateLayer None w2 of
                Inl e \<Rightarrow> False
              | Inr w3 \<Rightarrow>
                  baseLayers w3 @ tls_activelayers w3 = [Some 1, None]
                  \<and> fst (lookup_advice two_layer_method (baseLayers w3 @ tls_activelayers w3))
                      = Link Around 0 (Link Around 1 Stop))))"
  by (simp add: globalDeactivateLayer_def globalActivateLayer_def initial_world_def
      lookup_advice_def cache_get_def cacheMethods_def collect_methods_def two_layer_method_def
      true_guard_def Let_def)

subsection \<open>The end of the chain\<close>

lemma coherent_hit:
  assumes "coherent d" and "cache_get (cache d) key = Some a"
  shows "a = fst (cacheMethods d key)"
proof -
  from assms(2) have "(key, a) \<in> set (cache d)"
    unfolding cache_get_def by (rule map_of_SomeD)
  with assms(1) show ?thesis
    by (auto simp: coherent_def list_all_iff)
qed

lemma coherent_lookup:
  assumes "cache_get (cache d) key = None \<or> coherent d"
  shows "fst (lookup_advice d key) = fst (cacheMethods d key)"
proof (cases "cache_get (cache d) key")
  case None
  then show ?thesis by (simp add: lookup_advice_def)
next
  case (Some a)
  with assms have "a = fst (cacheMethods d key)" by (auto intro: coherent_hit)
  with Some show ?thesis by (simp add: lookup_advice_def)
qed

lemma coherent_grows:
  assumes "coherent d" and "cache_grows d d'"
  shows "coherent d'"
proof -
  from assms(2) obtain new where m: "methods d' = methods d"
    and c: "cache d' = cache d @ new"
    and n: "list_all (\<lambda>(key, a). a = fst (cacheMethods d key)) new"
    by (auto simp: cache_grows_def)
  from m have "fst (cacheMethods d' key) = fst (cacheMethods d key)" for key
    by (simp add: fst_cacheMethods)
  with assms(1) n c show ?thesis by (simp add: coherent_def)
qed

lemma no_base_calls:
  "map_option (\<lambda>(r, w1). (r, cache (descriptors w1 2))) 
     (proxy_call example_env 1 2 PyNone PyNone [] [] example_world)
   = Some (Raise PyException, [([None], Stop)])"
  by (simp add: example_defs)

text \<open>
  Claim C6, as the code has it. The link that ends every chain raises whenever it is
  called; when the combination begins with \<^verbatim>\<open>None\<close> and an entry of the base layer
  is eligible, the innermost link before it is the first registered of those entries; and
  a call whose combination has no eligible entry raises that exception instead of
  returning, when the cache has no chain for the combination and also when it has one,
  the descriptor being coherent. A descriptor is coherent when it is created, and calls
  keep it so.
\<close>

theorem terminal_link_raises:
  "call_advice env (Suc n) Stop c args kwargs w = Some (Raise PyException, w)
   \<and> (layer_group (methods d) (None # ls) None \<noteq> [] \<longrightarrow>
        links (fst (cacheMethods d (None # ls))) \<noteq> []
        \<and> last (links (fst (cacheMethods d (None # ls))))
            = hd (layer_group (methods d) (None # ls) None))
   \<and> ((cache_get (cache (descriptors w m)) (baseLayers w @ tls_activelayers w) = None
          \<or> coherent (descriptors w m))
        \<and> collect_methods (methods (descriptors w m)) (baseLayers w @ tls_activelayers w) = [] \<longrightarrow>
        map_option fst (proxy_call env (Suc n) m inst cls args kwargs w)
          = Some (Raise PyException))
   \<and> coherent (createlayeredmethod b partial)
   \<and> (coherent (descriptors w m') \<and> proxy_call env k m inst cls args kwargs w = Some (r, w1) \<longrightarrow>
        coherent (descriptors w1 m'))"
proof -
  let ?al = "baseLayers w @ tls_activelayers w"
  have a: "call_advice env (Suc n) Stop c args kwargs w = Some (Raise PyException, w)"
    by simp
  have b: "links (fst (cacheMethods d (None # ls))) \<noteq> []
        \<and> last (links (fst (cacheMethods d (None # ls))))
            = hd (layer_group (methods d) (None # ls) None)"
    if "layer_group (methods d) (None # ls) None \<noteq> []"
    using that by (simp add: links_cacheMethods last_rev)
  have c: "map_option fst (proxy_call env (Suc n) m inst cls args kwargs w)
          = Some (Raise PyException)"
    if h: "cache_get (cache (descriptors w m)) ?al = None \<or> coherent (descriptors w m)"
      and e: "collect_methods (methods (descriptors w m)) ?al = []"
  proof -
    from h have "fst (lookup_advice (descriptors w m) ?al) = fst (cacheMethods (descriptors w m) ?al)"
      by (rule coherent_lookup)
    with e have "fst (lookup_advice (descriptors w m) ?al) = Stop"
      by (simp add: fst_cacheMethods)
    then show ?thesis by (simp add: proxy_call_def dispatch_unfold)
  qed
  have d: "coherent (createlayeredmethod b partial)"
    by (simp add: coherent_def createlayeredmethod_def split: option.splits)
  have e: "coherent (descriptors w1 m')"
    if "coherent (descriptors w m')" "proxy_call env k m inst cls args kwargs w = Some (r, w1)"
  proof -
    from that(2) have "grows w w1" by (rule proxy_call_grows)
    then have "cache_grows (descriptors w m') (descriptors w1 m')" by (simp add: grows_def)
    with that(1) show ?thesis by (rule coherent_grows)
  qed
  from a b c d e show ?thesis by blast
qed

text \<open>
  The method without a base implementation, called with no layer active: the first call
  raises and caches the bare \<open>Stop\<close>, the second call finds it and raises again.
\<close>

theorem terminal_link_raises_witness:
  "layer_group (methods two_layer_method) [None, Some 1, Some 2] None \<noteq> []
   \<and> last (links (fst (cacheMethods two_layer_method [None, Some 1, Some 2]))) = (0, Around)
   \<and> collect_methods (methods (descriptors example_world 2))
        (baseLayers example_world @ tls_activelayers example_world) = []
   \<and> coherent (descriptors example_world 2)
   \<and> (\<exists>r w1.
        proxy_call example_env 1 2 PyNone PyNone [] [] example_world = Some (r, w1)
        \<and> r = Raise PyException
        \<and> cache (descriptors w1 2) = [([None], Stop)]
        \<and> coherent (descriptors w1 2)
        \<and> map_option fst (proxy_call example_env 1 2 PyNone PyNone [] [] w1)
            = Some (Raise PyException))"
proof -
  have h1: "layer_group (methods two_layer_method) [None, Some 1, Some 2] None \<noteq> []"
    and h1': "hd (layer_group (methods two_layer_method) [None, Some 1, Some 2] None) = (0, Around)"
    by (simp_all add: layer_group_def two_layer_method_def true_guard_def)
  have h2: "coherent (descriptors example_world 2)"
    by (simp add: coherent_def example_world_def example_methods_def no_base_method_def)
  have h3: "collect_methods (methods (descriptors example_world 2))
              (baseLayers example_world @ tls_activelayers example_world) = []"
    by (simp add: collect_methods_def example_world_def example_methods_def no_base_method_def
        initial_world_def)
  from no_base_calls obtain r w1 where
    p: "proxy_call example_env 1 2 PyNone PyNone [] [] example_world = Some (r, w1)"
    and r: "r = Raise PyException" and c: "cache (descriptors w1 2) = [([None], Stop)]"
    by auto
  note t1 = terminal_link_raises [where d = two_layer_method and ls = "[Some 1, Some 2]"
      and w = example_world and m = 2 and m' = 2 and env = example_env and k = 1
      and inst = PyNone and cls = PyNone and args = "[]" and kwargs = "[]" and r = r and ?w1.0 = w1]
  from t1 h2 p have co: "coherent (descriptors w1 2)" by blast
  from proxy_call_grows [OF p]
  have f: "baseLayers w1 @ tls_activelayers w1
             = baseLayers example_world @ tls_activelayers example_world"
    and ms: "methods (descriptors w1 2) = methods (descriptors example_world 2)"
    by (simp_all add: grows_def cache_grows_def)
  note t2 = terminal_link_raises [where w = w1 and m = 2 and env = example_env and n = 0
      and inst = PyNone and cls = PyNone and args = "[]" and kwargs = "[]"]
  from t2 co h3 f ms
  have "map_option fst (proxy_call example_env 1 2 PyNone PyNone [] [] w1)
          = Some (Raise PyException)" by simp
  with t1 h1 h1' h2 h3 p r c co show ?thesis by simp
qed

text \<open>
  Claim C6 as stated fails in two ways. For a combination that does not begin with
  \<^verbatim>\<open>None\<close>: after \<^verbatim>\<open>globalDeactivateLayer(None)\<close>, inside
  \<^verbatim>\<open>activeLayers(L2, None)\<close> the combination is \<^verbatim>\<open>(L2, None)\<close>; the base entry is
  eligible, and the innermost link is the advice of L2. And for a cache that is not
  coherent: a method is called under \<^verbatim>\<open>(None,)\<close> and under \<^verbatim>\<open>(None, L1)\<close>, then
  its entries are set to the empty list, which raises \<^verbatim>\<open>RuntimeError\<close> and leaves the
  chain cached for \<^verbatim>\<open>(None, L1)\<close>; the next call under \<^verbatim>\<open>(None, L1)\<close> has no
  eligible entry and returns.
\<close>

theorem end_of_chain_counterexample:
  "(case globalDeactivateLayer None initial_world of
      Inl e \<Rightarrow> False
    | Inr w1 \<Rightarrow>
        (let w2 = snd (manager_enter (activeLayers [Some 2, None]) w1)
         in baseLayers w2 @ tls_activelayers w2 = [Some 2, None]
            \<and> layer_group (methods two_layer_method) [Some 2, None] None = [(0, Around)]
            \<and> links (fst (lookup_advice two_layer_method (baseLayers w2 @ tls_activelayers w2)))
                = [(0, Around), (2, Around)]))
   \<and> (case proxy_call example_env 2 0 PyNone PyNone [] [] example_world of
         None \<Rightarrow> False
       | Some (r1, w1) \<Rightarrow>
           (case proxy_call example_env 2 0 PyNone PyNone [] []
                   (snd (manager_enter (activeLayer (Some 1)) w1)) of
              None \<Rightarrow> False
            | Some (r2, w2) \<Rightarrow>
                (case setMethods (descriptors w2 0) [] of
                   (e, d3) \<Rightarrow>
                     e = Some RuntimeError
                     \<and> baseLayers w2 @ tls_activelayers w2 = [None, Some 1]
                     \<and> collect_methods (methods d3) [None, Some 1] = []
                     \<and> map_option fst
                         (proxy_call example_env 2 0 PyNone PyNone [] []
                            (w2\<lparr>descriptors := (descriptors w2)(0 := d3)\<rparr>))
                       = Some (Return (PyTuple [])))))"
  by (simp add: example_defs globalDeactivateLayer_def activeLayers_def layer_group_def
      setMethods_def clearCache_def cache_pop_def numeral_2_eq_2)

subsection \<open>What guards and cache keys see\<close>

text \<open>
  Claim C10. When a call builds its chain, the chain is stored under the base layers
  followed by the active layers of the thread, and an entry is in the chain exactly
  according to its layer and to its guard applied to that whole tuple; with the base
  layers of a fresh process the tuple begins with \<^verbatim>\<open>None\<close>.
\<close>

theorem guards_get_full_combination:
  assumes miss: "cache_get (cache (descriptors w m)) (baseLayers w @ tls_activelayers w) = None"
    and call: "proxy_call env n m inst cls args kwargs w = Some (r, w1)"
  shows "(\<exists>a. cache_get (cache (descriptors w1 m)) (baseLayers w @ tls_activelayers w) = Some a
            \<and> links a = rev (concat (map
                 (layer_group (methods (descriptors w m)) (baseLayers w @ tls_activelayers w))
                 (baseLayers w @ tls_activelayers w))))
         \<and> (baseLayers w = baseLayers initial_world \<longrightarrow>
              baseLayers w @ tls_activelayers w = None # tls_activelayers w)"
proof -
  let ?al = "baseLayers w @ tls_activelayers w"
  let ?d = "descriptors w m"
  let ?a = "fst (cacheMethods ?d ?al)"
  let ?w0 = "snd (new_context inst cls (w\<lparr>descriptors := (descriptors w)
               (m := snd (lookup_advice ?d ?al))\<rparr>))"
  from call have "call_advice env n (fst (lookup_advice ?d ?al)) (n_contexts w) args kwargs ?w0
      = Some (r, w1)"
    by (simp add: proxy_call_def dispatch_unfold)
  then have "grows ?w0 w1" by (rule call_advice_grows)
  then obtain new where "cache (descriptors w1 m) = cache (descriptors ?w0 m) @ new"
    by (auto simp: grows_def cache_grows_def)
  moreover from miss have "cache_get (cache (descriptors ?w0 m)) ?al = Some ?a"
    by (simp add: new_context_def lookup_advice_miss cache_get_def map_add_def)
  ultimately have "cache_get (cache (descriptors w1 m)) ?al = Some ?a"
    by (simp add: cache_get_append)
  moreover have "links ?a = rev (concat (map (layer_group (methods ?d) ?al) ?al))"
    by (rule links_cacheMethods)
  ultimately show ?thesis by (simp add: initial_world_def)
qed

lemma guarded_call:
  "map_option (\<lambda>(r, w1). (r, cache (descriptors w1 3)))
     (proxy_call example_env 2 3 PyNone PyNone [PyInt 1] [] layer1_world)
   = Some (Return (PyTuple [PyInt 1]), [([None, Some 1], Link Before 4 (Link Around 0 Stop))])"
  by (simp add: example_defs numeral_2_eq_2)

theorem guards_get_full_combination_witness:
  "\<exists>r w1.
     cache_get (cache (descriptors layer1_world 3)) [None, Some 1] = None
     \<and> baseLayers layer1_world @ tls_activelayers layer1_world = [None, Some 1]
     \<and> proxy_call example_env 2 3 PyNone PyNone [PyInt 1] [] layer1_world = Some (r, w1)
     \<and> cache_get (cache (descriptors w1 3)) [None, Some 1]
         = Some (Link Before 4 (Link Around 0 Stop))
     \<and> layer_group (methods (descriptors layer1_world 3)) [None, Some 1] (Some 1) = [(4, Before)]
     \<and> layer_group (methods (descriptors layer1_world 3)) [Some 1] (Some 1) = []"
proof -
  let ?w = layer1_world
  have al: "baseLayers ?w @ tls_activelayers ?w = [None, Some 1]"
    by (simp add: layer1_world_def manager_enter_def activeLayer_def getActiveLayers_def
        example_world_def initial_world_def)
  have d: "descriptors ?w 3 = guarded_method"
    by (simp add: layer1_world_def manager_enter_def example_world_def example_methods_def Let_def)
  have miss: "cache_get (cache (descriptors ?w 3)) (baseLayers ?w @ tls_activelayers ?w) = None"
    by (simp add: d guarded_method_def cache_get_def)
  from guarded_call obtain r w1 where
    h: "proxy_call example_env 2 3 PyNone PyNone [PyInt 1] [] ?w = Some (r, w1)"
    and c: "cache (descriptors w1 3) = [([None, Some 1], Link Before 4 (Link Around 0 Stop))]"
    by auto
  have g: "layer_group (methods (descriptors ?w 3)) [None, Some 1] (Some 1) = [(4, Before)]"
    "layer_group (methods (descriptors ?w 3)) [Some 1] (Some 1) = []"
    by (simp_all add: d layer_group_def guarded_method_def)
  from guards_get_full_combination [OF miss h] h c g miss al show ?thesis
    by (simp add: cache_get_def)
qed

subsection \<open>The dispatch context of the thread\<close>

text \<open>
  Claim C2 fails on the code. \<^verbatim>\<open>_Around.__call__\<close> saves \<^verbatim>\<open>_tls.context\<close>, sets
  it to its own context list and assigns the saved value back after the call of the
  implementation; the assignment is not in a \<^verbatim>\<open>finally\<close> clause. A method whose base
  implementation raises is called in a fresh thread: the exception leaves the link, and
  \<^verbatim>\<open>_tls.context\<close>, which was \<^verbatim>\<open>None\<close>, is the context list of that call.
\<close>

theorem around_leaves_context_on_raise:
  "(case proxy_call example_env 2 4 PyNone PyNone [] [] example_world of
      None \<Rightarrow> False
    | Some (r, w1) \<Rightarrow> r = Raise (UserError 0) \<and> tls_context w1 = Some 0)
   \<and> tls_context example_world = None
   \<and> n_contexts example_world = 0"
  by (simp add: example_defs numeral_2_eq_2)

text \<open>
  The slot \<^verbatim>\<open>context[2]\<close> is written by every \<^verbatim>\<open>_Around\<close> link that runs with the
  context list and is never written back. The advice \<^verbatim>\<open>f6\<close> calls \<^verbatim>\<open>proceed\<close>
  twice: the first call runs the base implementation, whose link stores \<open>Stop\<close>; the
  second call finds \<open>Stop\<close> and raises.
\<close>

lemma second_proceed_calls_the_last_stored_link:
  "map_option fst (proxy_call example_env 4 7 PyNone PyNone [PyInt 1] [] layer1_world)
     = Some (Raise PyException)
   \<and> fst (lookup_advice (descriptors layer1_world 7)
            (baseLayers layer1_world @ tls_activelayers layer1_world))
       = Link Around 6 (Link Around 0 Stop)"
  by (simp add: example_defs eval_nat_numeral)

subsection \<open>The arguments of proceed\<close>

text \<open>
  Claim C3, as the code has it. \<^verbatim>\<open>proceed(*args', **kwargs')\<close> calls the link held
  in the slot \<^verbatim>\<open>context[2]\<close> of the context list \<^verbatim>\<open>_tls.context\<close>, with that
  context list and exactly \<open>args'\<close> and \<open>kwargs'\<close>. An \<^verbatim>\<open>_Around\<close> link makes its
  context list the current one and stores its next link in the slot before it calls its
  implementation: when the implementation, called with \<open>args\<close> and \<open>kwargs\<close>, begins by
  calling \<^verbatim>\<open>proceed(*args', **kwargs')\<close>, the next link is called with \<open>args'\<close> and
  \<open>kwargs'\<close>, and the implementation goes on with what that call gave. The arguments
  of the link itself play no part: \<^verbatim>\<open>proceed()\<close> calls with no positional and no
  keyword arguments.
\<close>

theorem proceed_forwards_its_own_arguments:
  "(tls_context w = Some c \<and> c_next (contexts w c) = Some nxt \<longrightarrow>
      proceed call args' kwargs' w = call nxt c args' kwargs' w)
   \<and> (received_args (f_type (env f)) (c_inst (contexts w c)) (c_cls (contexts w c)) args
        = Some args1
      \<and> f_body (env f) args1 kwargs = CallProceed args' kwargs' k \<longrightarrow>
      call_advice env (Suc n) (Link Around f nextFct) c args kwargs w =
        (case call_advice env n nextFct c args' kwargs'
                (w\<lparr>tls_context := Some c,
                   contexts := (contexts w)(c := (contexts w c)\<lparr>c_next := Some nextFct\<rparr>)\<rparr>) of
           None \<Rightarrow> None
         | Some (r, w3) \<Rightarrow>
             (case run (call_advice env n) (k r) w3 of
                None \<Rightarrow> None
              | Some (Raise e, w4) \<Rightarrow> Some (Raise e, w4)
              | Some (Return v, w4) \<Rightarrow> Some (Return v, w4\<lparr>tls_context := tls_context w\<rparr>))))"
  by (simp add: invoke_received Let_def proceed_def
      split: option.splits prod.splits outcome.splits)

text \<open>
  \<^verbatim>\<open>f2\<close>, called with \<^verbatim>\<open>(1)\<close>, calls \<^verbatim>\<open>proceed(7, k=8)\<close>; the base implementation
  gets \<^verbatim>\<open>(7)\<close>. In a state whose current context list holds \<open>Stop\<close>,
  \<^verbatim>\<open>proceed(7)\<close> calls \<open>Stop\<close>.
\<close>

theorem proceed_forwards_its_own_arguments_witness:
  "received_args (f_type (example_env 2)) (c_inst (contexts example_world 0))
       (c_cls (contexts example_world 0)) [PyInt 1] = Some [PyInt 1]
   \<and> f_body (example_env 2) [PyInt 1] [] = CallProceed [PyInt 7] [(''k'', PyInt 8)] Done
   \<and> map_option fst
        (call_advice example_env 2 (Link Around 2 (Link Around 0 Stop)) 0 [PyInt 1] [] example_world)
       = Some (Return (PyTuple [PyInt 7]))
   \<and> tls_context (example_world\<lparr>tls_context := Some 0,
         contexts := (contexts example_world)
           (0 := (contexts example_world 0)\<lparr>c_next := Some Stop\<rparr>)\<rparr>) = Some 0
   \<and> proceed (call_advice example_env 1) [PyInt 7] []
        (example_world\<lparr>tls_context := Some 0,
           contexts := (contexts example_world)
             (0 := (contexts example_world 0)\<lparr>c_next := Some Stop\<rparr>)\<rparr>)
       = Some (Raise PyException,
               example_world\<lparr>tls_context := Some 0,
                 contexts := (contexts example_world)
                   (0 := (contexts example_world 0)\<lparr>c_next := Some Stop\<rparr>)\<rparr>)"
proof -
  let ?w = "example_world\<lparr>tls_context := Some 0,
         contexts := (contexts example_world)
           (0 := (contexts example_world 0)\<lparr>c_next := Some Stop\<rparr>)\<rparr>"
  have h1: "received_args (f_type (example_env 2)) (c_inst (contexts example_world 0))
       (c_cls (contexts example_world 0)) [PyInt 1] = Some [PyInt 1]"
    by (simp add: received_args_def example_env_def example_world_def initial_world_def)
  have h2: "f_body (example_env 2) [PyInt 1] [] = CallProceed [PyInt 7] [(''k'', PyInt 8)] Done"
    by (simp add: example_env_def)
  have h3: "tls_context ?w = Some 0" "c_next (contexts ?w 0) = Some Stop"
    by simp_all
  from h1 h2 h3
    proceed_forwards_its_own_arguments
      [where env = example_env and f = 2 and w = example_world and c = 0 and args = "[PyInt 1]"
         and ?args1.0 = "[PyInt 1]"
         and kwargs = "[]" and args' = "[PyInt 7]" and kwargs' = "[(''k'', PyInt 8)]"
         and k = Done and n = 1 and nextFct = "Link Around 0 Stop"]
    proceed_forwards_its_own_arguments
      [where w = ?w and c = 0 and nxt = Stop and call = "call_advice example_env 1"
         and args' = "[PyInt 7]" and kwargs' = "[]"]
  show ?thesis
    by (simp add: numeral_2_eq_2 invoke_def example_env_def example_world_def initial_world_def
        Let_def)
qed

text \<open>
  Claim C3 as stated fails for \<^verbatim>\<open>proceed()\<close>: inside \<^verbatim>\<open>activeLayer(L1)\<close> the method
  is called with \<^verbatim>\<open>(1)\<close>; the advice of L1 is \<^verbatim>\<open>f1\<close>, which returns
  \<^verbatim>\<open>proceed()\<close>; the base implementation, which returns the arguments it gets, returns
  \<^verbatim>\<open>()\<close> and not \<^verbatim>\<open>(1)\<close>.
\<close>

theorem proceed_without_arguments_counterexample:
  "(case proxy_call example_env 3 1 PyNone PyNone [PyInt 1] [] layer1_world of
      None \<Rightarrow> False
    | Some (r, w1) \<Rightarrow> r = Return (PyTuple []))
   \<and> links (fst (lookup_advice (descriptors layer1_world 1)
               (baseLayers layer1_world @ tls_activelayers layer1_world)))
       = [(1, Around), (0, Around)]
   \<and> f_body (example_env 1) [PyInt 1] [] = CallProceed [] [] Done
   \<and> f_body (example_env 0) [PyInt 1] [] = Done (Return (PyTuple [PyInt 1]))"
  by (simp add: example_defs numeral_3_eq_3)

subsection \<open>Clearing the cache\<close>

lemma clearCache_loop_changed:
  "length c \<noteq> used \<Longrightarrow> clearCache_loop used ks c = (Some RuntimeError, c)"
  by (cases ks) simp_all

lemma length_filter_neq_Suc: "length (filter P xs) \<noteq> Suc (length xs)"
  using length_filter_le [of P xs] by arith

lemma clearCache_nonempty:
  assumes "cache d \<noteq> []"
  shows "clearCache d = (Some RuntimeError, d\<lparr>cache := cache_pop (fst (hd (cache d))) (cache d)\<rparr>)"
proof -
  from assms obtain k v rest where c: "cache d = (k, v) # rest"
    by (cases "cache d") auto
  have "length (cache_pop k ((k, v) # rest)) \<noteq> Suc (length rest)"
    by (simp add: cache_pop_def length_filter_neq_Suc)
  then have "clearCache_loop (Suc (length rest)) (map fst rest) (cache_pop k ((k, v) # rest))
             = (Some RuntimeError, cache_pop k ((k, v) # rest))"
    by (rule clearCache_loop_changed)
  with c show ?thesis by (simp add: clearCache_def)
qed

lemma clearCache_empty: "cache d = [] \<Longrightarrow> clearCache d = (None, d)"
  by (simp add: clearCache_def)

text \<open>
  Claim C1 fails on the code. A method is called once with no layer active and once
  inside \<^verbatim>\<open>activeLayer(L1)\<close>, so that its cache has two entries; then advice is
  registered for L1. \<^verbatim>\<open>registerMethod\<close> raises \<^verbatim>\<open>RuntimeError\<close> after the
  first entry was removed, the chain cached for \<^verbatim>\<open>(None, L1)\<close> stays and is the one
  the next call under that combination gets, without the new advice that a fresh chain
  has. \<^verbatim>\<open>unregisterMethod\<close> raises \<^verbatim>\<open>AttributeError\<close> and changes nothing.
\<close>

theorem registerMethod_leaves_stale_chain:
  "(case proxy_call example_env 2 0 PyNone PyNone [] [] example_world of
      None \<Rightarrow> False
    | Some (r1, w1) \<Rightarrow>
        (case proxy_call example_env 2 0 PyNone PyNone [] []
                (snd (manager_enter (activeLayer (Some 1)) w1)) of
           None \<Rightarrow> False
         | Some (r2, w2) \<Rightarrow>
             (case registerMethod (\<lambda>f. ''m'') (descriptors w2 0) 1 Around (Some 1) true_guard [] of
                (e, d3) \<Rightarrow>
                  cache (descriptors w2 0)
                    = [([None], Link Around 0 Stop), ([None, Some 1], Link Around 0 Stop)]
                  \<and> e = Some RuntimeError
                  \<and> map lm_func (methods d3) = [0, 1]
                  \<and> cache d3 = [([None, Some 1], Link Around 0 Stop)]
                  \<and> fst (lookup_advice d3 [None, Some 1]) = Link Around 0 Stop
                  \<and> fst (cacheMethods d3 [None, Some 1]) = Link Around 1 (Link Around 0 Stop)
                  \<and> unregisterMethod d3 1 (Some 1) = (Some AttributeError, d3))))"
  by (simp add: example_defs registerMethod_def setMethods_def
      getMethods_def clearCache_def cache_pop_def unregisterMethod_def numeral_2_eq_2)

end
